theory Spec2Isabelle
  imports Main "HOL-Library.AList"
begin

section \<open>Data model\<close>

text \<open>
  A chart file (\<^verbatim>\<open>chart.File\<close>) has a path relative to the chart root and its raw bytes.
\<close>

record chart_file =
  Name :: string
  Data :: string

text \<open>
  Chart metadata (\<^verbatim>\<open>chart.Metadata\<close>). The fields the two commands read or write are
  listed; the remaining descriptive fields are copied verbatim by the commands and are
  kept together in \<open>Descriptive\<close>.
\<close>

record metadata =
  MetaName :: string
  Version :: string
  Description :: string
  ChartAPIVersion :: string
  Annotations :: "(string \<times> string) list"
  Descriptive :: "string list"

text \<open>
  A loaded chart (\<^verbatim>\<open>chart.Chart\<close>): the raw files, the metadata pointer (\<open>None\<close> is
  the nil pointer), the templates, the miscellaneous files and the dependency charts.
  The dependency slice is modelled by its non-nil entries, in order: both commands skip
  a nil entry (\<^verbatim>\<open>if dep == nil { continue }\<close>, \<^verbatim>\<open>if dep != nil\<close>) before touching it.
\<close>

datatype chart =
  Chart (Raw: "chart_file list") (Metadata: "metadata option") (Templates: "chart_file list")
        (Files: "chart_file list") (Dependencies: "chart list")

text \<open>\<^verbatim>\<open>strings.HasPrefix(s, prefix)\<close>.\<close>

definition HasPrefix :: "string \<Rightarrow> string \<Rightarrow> bool" where
  "HasPrefix s p = (take (length p) s = p)"

section \<open>crdless.go: removing CRDs\<close>

text \<open>
  The test of line 103 that decides whether a dependency is recursed into:
  \<^verbatim>\<open>dep.Metadata != nil && len(dep.Files) > 0\<close>.
\<close>

definition embeddedArchive :: "chart \<Rightarrow> bool" where
  "embeddedArchive dep = (Metadata dep \<noteq> None \<and> length (Files dep) > 0)"

text \<open>
  \<^verbatim>\<open>removeCRDsFromChart\<close> updates the chart in place; the model returns the updated
  chart. The first loop keeps the files whose name does not start with \<^verbatim>\<open>crds/\<close>; the
  second rebuilds the dependency list, recursing into a dependency only when the test
  of line 103 holds and appending it unchanged otherwise.
\<close>

fun removeCRDsFromChart :: "chart \<Rightarrow> chart" where
  "removeCRDsFromChart (Chart raw md tpl fs deps) =
     Chart raw md tpl
       (filter (\<lambda>f. \<not> HasPrefix (Name f) ''crds/'') fs)
       (map (\<lambda>dep. if embeddedArchive dep then removeCRDsFromChart dep else dep) deps)"

text \<open>A file is a schema file when its path lies under the prefix \<^verbatim>\<open>crds/\<close>.\<close>

definition isCRDFile :: "chart_file \<Rightarrow> bool" where
  "isCRDFile f = HasPrefix (Name f) ''crds/''"

text \<open>No node of the tree, at any depth, holds a schema file.\<close>

fun crdFree :: "chart \<Rightarrow> bool" where
  "crdFree (Chart raw md tpl fs deps) =
     (filter isCRDFile fs = [] \<and> list_all crdFree deps)"

text \<open>The tree without its file lists: metadata (with the name) and children, in order.\<close>

datatype skeleton = Skeleton "metadata option" "skeleton list"

fun skeletonOf :: "chart \<Rightarrow> skeleton" where
  "skeletonOf (Chart raw md tpl fs deps) = Skeleton md (map skeletonOf deps)"

fun nodeCount :: "chart \<Rightarrow> nat" where
  "nodeCount (Chart raw md tpl fs deps) = Suc (sum_list (map nodeCount deps))"

section \<open>crdonly.go: collecting CRDs\<close>

text \<open>\<^verbatim>\<open>schema.GroupKind\<close>, the key of the two maps.\<close>

record GroupKind =
  Group :: string
  Kind :: string

text \<open>
  The fields of \<^verbatim>\<open>crdv1.CustomResourceDefinition\<close> that \<^verbatim>\<open>extractCRDKey\<close> reads:
  \<^verbatim>\<open>APIVersion\<close>, \<^verbatim>\<open>Kind\<close>, \<^verbatim>\<open>Spec.Group\<close> and \<^verbatim>\<open>Spec.Names.Kind\<close>.
\<close>

record CustomResourceDefinition =
  APIVersion :: string
  TypeKind :: string
  SpecGroup :: string
  SpecNamesKind :: string

datatype error =
    YamlError string
  | NotValidCRD
  | NotAMap "string list"
  | NilMapPanic
  | NilPointerPanic
  | SlicePanic

text \<open>
  \<^verbatim>\<open>extractCRDKey\<close>. The YAML decoder (\<^verbatim>\<open>yaml.Unmarshal\<close> into the typed struct) is a
  parameter: it returns the decoded struct or the decoder's error message.
\<close>

definition extractCRDKey ::
  "(string \<Rightarrow> string + CustomResourceDefinition) \<Rightarrow> string \<Rightarrow> error + GroupKind" where
  "extractCRDKey unmarshal data =
     (case unmarshal data of
        Inl err \<Rightarrow> Inl (YamlError err)
      | Inr crd \<Rightarrow>
          if APIVersion crd = [] \<or> TypeKind crd \<noteq> ''CustomResourceDefinition''
          then Inl NotValidCRD
          else Inr \<lparr>Group = SpecGroup crd, Kind = SpecNamesKind crd\<rparr>)"

text \<open>
  Modelled from the spec: \<^verbatim>\<open>Chart.CRDObjects\<close> belongs to the Helm library and is not
  under src/. It lists the schema files of the chart and of its subcharts: the files of
  the node itself in their stored order, then those of its dependencies in declaration
  order, depth first (the preorder walk of section 4.3). Which files of a node count as
  schema files is the parameter \<open>isCRD\<close>.
\<close>

fun CRDObjects :: "(chart_file \<Rightarrow> bool) \<Rightarrow> chart \<Rightarrow> chart_file list" where
  "CRDObjects isCRD (Chart raw md tpl fs deps) =
     filter isCRD fs @ concat (map (CRDObjects isCRD) deps)"

text \<open>
  \<^verbatim>\<open>Chart.Name\<close> of the Helm library: the name in the metadata, the empty string when
  the chart has no metadata.
\<close>

definition chartName :: "chart \<Rightarrow> string" where
  "chartName ch = (case Metadata ch of None \<Rightarrow> [] | Some m \<Rightarrow> MetaName m)"

text \<open>
  The lines the collector prints: a file that is no CRD (file name, source chart, error),
  and a duplicated key (key, the source chart in which it was met again, the source
  chart whose version is kept).
\<close>

datatype warning =
    ParseFailed string string error
  | Duplicated GroupKind string string
  | ModifyDocFailed error

text \<open>
  The state of the collection on chart values: the chart the collection started from,
  kept for reference, the two maps and the lines printed so far. Reads and writes
  through the pointers of the Go code are the subject of the store further down.
\<close>

record collector =
  loaded :: chart
  crdMap :: "GroupKind \<rightharpoonup> chart_file"
  sourceMap :: "GroupKind \<rightharpoonup> string"
  printed :: "warning list"

text \<open>One iteration of the loop of \<^verbatim>\<open>collectCRDs\<close> (lines 161 to 175).\<close>

definition collectStep ::
  "(string \<Rightarrow> string + CustomResourceDefinition) \<Rightarrow> string \<Rightarrow> collector \<Rightarrow> chart_file
     \<Rightarrow> collector" where
  "collectStep unmarshal sourceName st f =
     (case extractCRDKey unmarshal (Data f) of
        Inl err \<Rightarrow> st\<lparr>printed := printed st @ [ParseFailed (Name f) sourceName err]\<rparr>
      | Inr key \<Rightarrow>
          (case sourceMap st key of
             Some existingSource \<Rightarrow>
               st\<lparr>printed := printed st @ [Duplicated key sourceName existingSource]\<rparr>
           | None \<Rightarrow>
               st\<lparr>crdMap := (crdMap st)(key \<mapsto> f),
                  sourceMap := (sourceMap st)(key \<mapsto> sourceName)\<rparr>))"

definition collectCRDs ::
  "(string \<Rightarrow> string + CustomResourceDefinition) \<Rightarrow> (chart_file \<Rightarrow> bool) \<Rightarrow> chart \<Rightarrow> string
     \<Rightarrow> collector \<Rightarrow> collector" where
  "collectCRDs unmarshal isCRD ch sourceName st =
     foldl (collectStep unmarshal sourceName) st (CRDObjects isCRD ch)"

text \<open>
  Lines 55 to 66 of the command: two fresh maps, the walk of the main chart, then the
  walk of each of its dependencies in order.
\<close>

definition freshCollector :: "chart \<Rightarrow> collector" where
  "freshCollector ch =
     \<lparr>loaded = ch, crdMap = Map.empty, sourceMap = Map.empty, printed = []\<rparr>"

definition collectAll ::
  "(string \<Rightarrow> string + CustomResourceDefinition) \<Rightarrow> (chart_file \<Rightarrow> bool) \<Rightarrow> chart
     \<Rightarrow> collector" where
  "collectAll unmarshal isCRD ch =
     foldl (\<lambda>st dep. collectCRDs unmarshal isCRD dep (chartName dep) st)
       (collectCRDs unmarshal isCRD ch (chartName ch) (freshCollector ch))
       (Dependencies ch)"

text \<open>The key of a file, when \<^verbatim>\<open>extractCRDKey\<close> accepts its bytes.\<close>

definition hasKey ::
  "(string \<Rightarrow> string + CustomResourceDefinition) \<Rightarrow> GroupKind \<Rightarrow> chart_file \<Rightarrow> bool" where
  "hasKey unmarshal key f = (extractCRDKey unmarshal (Data f) = Inr key)"

section \<open>crdonly.go: rewriting doc.yaml\<close>

text \<open>
  A decoded YAML value (\<^verbatim>\<open>any\<close> after \<^verbatim>\<open>yaml.Unmarshal\<close>): null, a boolean, a number
  (kept as its text), a string, a list, or a \<^verbatim>\<open>map[string]any\<close>, kept as an association
  list with one entry per key.
\<close>

datatype json =
    JNull
  | JBool bool
  | JNumber string
  | JString string
  | JArray "json list"
  | JObject "(string \<times> json) list"

text \<open>
  Modelled from the spec: \<^verbatim>\<open>unstructured.SetNestedField\<close> belongs to k8s.io/apimachinery
  and is not under src/. It walks the fields but the last from the given map, entering
  the map stored at a field, creating an empty map where the field is absent (section
  4.5: intermediate nesting levels are created if absent), and stores the value at the
  last field, overwriting what is there. Where a field on the way holds a value that is
  not a map it returns an error naming the path so far. The first argument is that
  path. With no field at all the Go code slices out of range and panics.
\<close>

fun setNestedFieldNoCopy ::
  "string list \<Rightarrow> (string \<times> json) list \<Rightarrow> json \<Rightarrow> string list
     \<Rightarrow> error + (string \<times> json) list" where
  "setNestedFieldNoCopy path m v [] = Inl SlicePanic"
| "setNestedFieldNoCopy path m v [field] = Inr (AList.update field v m)"
| "setNestedFieldNoCopy path m v (field # next # rest) =
     (case map_of m field of
        Some (JObject valMap) \<Rightarrow>
          (case setNestedFieldNoCopy (path @ [field]) valMap v (next # rest) of
             Inl err \<Rightarrow> Inl err
           | Inr valMap' \<Rightarrow> Inr (AList.update field (JObject valMap') m))
      | Some _ \<Rightarrow> Inl (NotAMap (path @ [field]))
      | None \<Rightarrow>
          (case setNestedFieldNoCopy (path @ [field]) [] v (next # rest) of
             Inl err \<Rightarrow> Inl err
           | Inr newVal \<Rightarrow> Inr (AList.update field (JObject newVal) m)))"

definition SetNestedField ::
  "(string \<times> json) list \<Rightarrow> json \<Rightarrow> string list \<Rightarrow> error + (string \<times> json) list" where
  "SetNestedField obj v fieldNames = setNestedFieldNoCopy [] obj v fieldNames"

text \<open>
  \<^verbatim>\<open>modifyDocYaml\<close>. The decoder into \<^verbatim>\<open>map[string]any\<close> and the encoder are
  parameters. The decoder returns its error message, or the map; a document that is
  YAML null leaves the map nil (\<open>None\<close>), and the first \<^verbatim>\<open>SetNestedField\<close> then panics
  on the assignment into the nil map.
\<close>

definition modifyDocYaml ::
  "(string \<Rightarrow> string + (string \<times> json) list option) \<Rightarrow> ((string \<times> json) list \<Rightarrow> string + string)
     \<Rightarrow> string \<Rightarrow> string \<Rightarrow> error + string" where
  "modifyDocYaml unmarshalMap marshal data newChartName =
     (case unmarshalMap data of
        Inl err \<Rightarrow> Inl (YamlError err)
      | Inr None \<Rightarrow> Inl NilMapPanic
      | Inr (Some content) \<Rightarrow>
     (case SetNestedField content (JString newChartName) [''project'', ''name''] of
        Inl err \<Rightarrow> Inl err
      | Inr c1 \<Rightarrow>
     (case SetNestedField c1 (JString newChartName) [''project'', ''shortName''] of
        Inl err \<Rightarrow> Inl err
      | Inr c2 \<Rightarrow>
     (case SetNestedField c2 (JString newChartName) [''chart'', ''name''] of
        Inl err \<Rightarrow> Inl err
      | Inr c3 \<Rightarrow>
     (case SetNestedField c3 (JString newChartName) [''release'', ''name''] of
        Inl err \<Rightarrow> Inl err
      | Inr c4 \<Rightarrow>
     (case marshal c4 of
        Inl err \<Rightarrow> Inl (YamlError err)
      | Inr bytes \<Rightarrow> Inr bytes))))))"

text \<open>The errors that are Go panics: they end the process, no caller sees them.\<close>

fun isPanic :: "error \<Rightarrow> bool" where
  "isPanic NilMapPanic = True"
| "isPanic NilPointerPanic = True"
| "isPanic SlicePanic = True"
| "isPanic _ = False"

section \<open>crdless.go: the command\<close>

text \<open>
  The loop of lines 52 to 61: the first file named \<^verbatim>\<open>doc.yaml\<close> is rewritten in place;
  when the rewrite fails a warning is printed and the file keeps its bytes. The result
  is the printed warnings and the files, or the panic.
\<close>

fun rewriteDocYaml ::
  "(string \<Rightarrow> string + (string \<times> json) list option) \<Rightarrow> ((string \<times> json) list \<Rightarrow> string + string)
     \<Rightarrow> string \<Rightarrow> chart_file list \<Rightarrow> error + (warning list \<times> chart_file list)" where
  "rewriteDocYaml unmarshalMap marshal newChartName [] = Inr ([], [])"
| "rewriteDocYaml unmarshalMap marshal newChartName (f # fs) =
     (if Name f = ''doc.yaml'' then
        (case modifyDocYaml unmarshalMap marshal (Data f) newChartName of
           Inl err \<Rightarrow> if isPanic err then Inl err else Inr ([ModifyDocFailed err], f # fs)
         | Inr data \<Rightarrow> Inr ([], f\<lparr>Data := data\<rparr> # fs))
      else
        (case rewriteDocYaml unmarshalMap marshal newChartName fs of
           Inl err \<Rightarrow> Inl err
         | Inr (ws, fs') \<Rightarrow> Inr (ws, f # fs')))"

text \<open>
  The body of the crd-less command between loading and saving (lines 45 to 61), on the
  loaded chart: the printed warnings and the chart handed to \<^verbatim>\<open>chartutil.SaveDir\<close>.
  Reading the name of a chart without metadata panics.
\<close>

definition crdLess ::
  "(string \<Rightarrow> string + (string \<times> json) list option) \<Rightarrow> ((string \<times> json) list \<Rightarrow> string + string)
     \<Rightarrow> chart \<Rightarrow> error + (warning list \<times> chart)" where
  "crdLess unmarshalMap marshal ch =
     (case Metadata ch of
        None \<Rightarrow> Inl NilPointerPanic
      | Some md \<Rightarrow>
          (let newChartName = MetaName md @ ''-certified'';
               ch' = removeCRDsFromChart ch
           in case rewriteDocYaml unmarshalMap marshal newChartName (Files ch') of
                Inl err \<Rightarrow> Inl err
              | Inr (ws, fs) \<Rightarrow>
                  Inr (ws, Chart (Raw ch') (Some (md\<lparr>MetaName := newChartName\<rparr>))
                             (Templates ch') fs (Dependencies ch'))))"

section \<open>crdonly.go: the command\<close>

text \<open>\<^verbatim>\<open>strings.TrimPrefix(s, "v")\<close>.\<close>

definition TrimPrefix_v :: "string \<Rightarrow> string" where
  "TrimPrefix_v s = (if HasPrefix s ''v'' then drop 1 s else s)"

text \<open>
  One round of the loop of lines 84 to 102: the first raw file with the given name is
  copied, \<^verbatim>\<open>doc.yaml\<close> through \<^verbatim>\<open>modifyDocYaml\<close>; when that fails a warning is printed
  and nothing is appended.
\<close>

definition copyNamedFile ::
  "(string \<Rightarrow> string + (string \<times> json) list option) \<Rightarrow> ((string \<times> json) list \<Rightarrow> string + string)
     \<Rightarrow> string \<Rightarrow> chart_file list \<Rightarrow> error + (warning list \<times> chart_file list) \<Rightarrow> string
     \<Rightarrow> error + (warning list \<times> chart_file list)" where
  "copyNamedFile unmarshalMap marshal newChartName raw acc name =
     (case acc of
        Inl err \<Rightarrow> Inl err
      | Inr (ws, extraFiles) \<Rightarrow>
          (case find (\<lambda>f. Name f = name) raw of
             None \<Rightarrow> Inr (ws, extraFiles)
           | Some f \<Rightarrow>
               if name = ''doc.yaml'' then
                 (case modifyDocYaml unmarshalMap marshal (Data f) newChartName of
                    Inl err \<Rightarrow>
                      if isPanic err then Inl err else Inr (ws @ [ModifyDocFailed err], extraFiles)
                  | Inr data \<Rightarrow> Inr (ws, extraFiles @ [\<lparr>Name = Name f, Data = data\<rparr>]))
               else Inr (ws, extraFiles @ [f])))"

definition filesToCopy :: "string list" where
  "filesToCopy = [''doc.yaml'', ''README.md'', ''values.yaml'', ''values.schema.json'', ''.helmignore'']"

text \<open>Lines 74 to 109: the copied raw files, then the template helpers.\<close>

definition collectExtraFiles ::
  "(string \<Rightarrow> string + (string \<times> json) list option) \<Rightarrow> ((string \<times> json) list \<Rightarrow> string + string)
     \<Rightarrow> string \<Rightarrow> chart \<Rightarrow> error + (warning list \<times> chart_file list)" where
  "collectExtraFiles unmarshalMap marshal newChartName ch =
     (case foldl (copyNamedFile unmarshalMap marshal newChartName (Raw ch)) (Inr ([], [])) filesToCopy of
        Inl err \<Rightarrow> Inl err
      | Inr (ws, extraFiles) \<Rightarrow>
          Inr (ws, extraFiles @ filter (\<lambda>f. HasPrefix (Name f) ''templates/_'') (Templates ch)))"

text \<open>\<^verbatim>\<open>renameChart\<close>.\<close>

definition renameChart :: "metadata \<Rightarrow> string \<Rightarrow> metadata" where
  "renameChart md newChartName =
     (case map_of (Annotations md) ''charts.openshift.io/name'' of
        None \<Rightarrow> md\<lparr>MetaName := newChartName\<rparr>
      | Some _ \<Rightarrow>
          md\<lparr>MetaName := newChartName,
             Annotations := AList.update ''charts.openshift.io/name'' newChartName (Annotations md)\<rparr>)"

text \<open>
  What the crd-only command hands to \<^verbatim>\<open>chartutil.SaveDir\<close>: the metadata of the new
  chart and its files, which are the values of \<open>crdFiles\<close> in the unspecified
  iteration order of a Go map, followed by \<open>extraFiles\<close>.
\<close>

record crdOnlyChart =
  newMetadata :: metadata
  crdFiles :: "GroupKind \<rightharpoonup> chart_file"
  extraFiles :: "chart_file list"

text \<open>
  The body of the crd-only command between loading and saving (lines 52 to 137), on the
  loaded chart: the printed warnings and the new chart.
\<close>

definition crdOnly ::
  "(string \<Rightarrow> string + CustomResourceDefinition) \<Rightarrow> (chart_file \<Rightarrow> bool)
     \<Rightarrow> (string \<Rightarrow> string + (string \<times> json) list option) \<Rightarrow> ((string \<times> json) list \<Rightarrow> string + string)
     \<Rightarrow> bool \<Rightarrow> chart \<Rightarrow> error + (warning list \<times> crdOnlyChart)" where
  "crdOnly unmarshal isCRD unmarshalMap marshal semver ch =
     (case Metadata ch of
        None \<Rightarrow> Inl NilPointerPanic
      | Some md \<Rightarrow>
          (let newChartName = MetaName md @ ''-certified-crds'';
               st = collectAll unmarshal isCRD ch
           in case collectExtraFiles unmarshalMap marshal newChartName ch of
                Inl err \<Rightarrow> Inl err
              | Inr (ws, extra) \<Rightarrow>
                  (let md1 = renameChart
                         (md\<lparr>MetaName := newChartName,
                             Description := ''Chart containing only CRDs from '' @ chartName ch @ '' chart'',
                             ChartAPIVersion := ''v2''\<rparr>) newChartName;
                       md2 = (if semver then md1\<lparr>Version := TrimPrefix_v (Version md)\<rparr> else md1)
                   in Inr (printed st @ ws,
                           \<lparr>newMetadata = md2, crdFiles = crdMap st, extraFiles = extra\<rparr>))))"

text \<open>The files of a chart handed to \<^verbatim>\<open>SaveDir\<close> by the crd-only command.\<close>

definition savedFiles :: "crdOnlyChart \<Rightarrow> chart_file set" where
  "savedFiles c = ran (crdFiles c) \<union> set (extraFiles c)"

section \<open>crdonly.go: the collector on the store\<close>

text \<open>
  The Go code walks the chart through pointers: a \<^verbatim>\<open>*chart.Chart\<close> holds slices of
  \<^verbatim>\<open>*chart.File\<close> and of \<^verbatim>\<open>*chart.Chart\<close>, and \<^verbatim>\<open>crdMap\<close> stores the file pointers
  themselves. To speak about writes through these pointers the objects are placed in a
  store: a pointer is an address, a chart object holds the addresses of its files and
  of its dependencies, and the store gives the object at every address.
\<close>

type_synonym addr = nat

record chart_object =
  oRaw :: "addr list"
  oMetadata :: "metadata option"
  oTemplates :: "addr list"
  oFiles :: "addr list"
  oDependencies :: "addr list"

record store =
  chartAt :: "addr \<Rightarrow> chart_object"
  fileAt :: "addr \<Rightarrow> chart_file"

text \<open>
  The chart reachable from a pointer, read out of the store down to the given depth;
  \<open>None\<close> when the dependencies go deeper (or round in a circle).
\<close>

fun readChart :: "nat \<Rightarrow> store \<Rightarrow> addr \<Rightarrow> chart option" where
  "readChart 0 s p = None"
| "readChart (Suc n) s p =
     (case those (map (readChart n s) (oDependencies (chartAt s p))) of
        None \<Rightarrow> None
      | Some deps \<Rightarrow>
          Some (Chart (map (fileAt s) (oRaw (chartAt s p))) (oMetadata (chartAt s p))
                  (map (fileAt s) (oTemplates (chartAt s p)))
                  (map (fileAt s) (oFiles (chartAt s p))) deps))"

text \<open>
  \<^verbatim>\<open>Chart.CRDObjects\<close> on the store, as \<open>CRDObjects\<close> above: it reads the file list
  and the dependency list of the object at the pointer and returns the pointers of the
  schema files, those of the chart first. The first argument bounds the depth of the
  recursion; \<open>None\<close> means the bound was reached.
\<close>

fun CRDObjectsAt :: "nat \<Rightarrow> (chart_file \<Rightarrow> bool) \<Rightarrow> store \<Rightarrow> addr \<Rightarrow> addr list option" where
  "CRDObjectsAt 0 isCRD s p = None"
| "CRDObjectsAt (Suc n) isCRD s p =
     (case those (map (CRDObjectsAt n isCRD s) (oDependencies (chartAt s p))) of
        None \<Rightarrow> None
      | Some crds \<Rightarrow> Some (filter (\<lambda>a. isCRD (fileAt s a)) (oFiles (chartAt s p)) @ concat crds))"

text \<open>\<^verbatim>\<open>Chart.Name\<close> on the store.\<close>

definition chartNameAt :: "store \<Rightarrow> addr \<Rightarrow> string" where
  "chartNameAt s p = (case oMetadata (chartAt s p) of None \<Rightarrow> [] | Some m \<Rightarrow> MetaName m)"

text \<open>
  What a walk can read and write: the store, the two maps (\<^verbatim>\<open>crdMap\<close> holds file
  pointers) and the printed lines.
\<close>

record walk =
  heap :: store
  crdMapP :: "GroupKind \<rightharpoonup> addr"
  sourceMapP :: "GroupKind \<rightharpoonup> string"
  printedP :: "warning list"

text \<open>
  One iteration of the loop of \<^verbatim>\<open>collectCRDs\<close> on the store: the name and the bytes
  of the file are read through its pointer, and the pointer is what is stored.
\<close>

definition collectStepP ::
  "(string \<Rightarrow> string + CustomResourceDefinition) \<Rightarrow> string \<Rightarrow> walk \<Rightarrow> addr \<Rightarrow> walk" where
  "collectStepP unmarshal sourceName st f =
     (case extractCRDKey unmarshal (Data (fileAt (heap st) f)) of
        Inl err \<Rightarrow>
          st\<lparr>printedP := printedP st @ [ParseFailed (Name (fileAt (heap st) f)) sourceName err]\<rparr>
      | Inr key \<Rightarrow>
          (case sourceMapP st key of
             Some existingSource \<Rightarrow>
               st\<lparr>printedP := printedP st @ [Duplicated key sourceName existingSource]\<rparr>
           | None \<Rightarrow>
               st\<lparr>crdMapP := (crdMapP st)(key \<mapsto> f),
                  sourceMapP := (sourceMapP st)(key \<mapsto> sourceName)\<rparr>))"

text \<open>\<^verbatim>\<open>collectCRDs\<close> on the store.\<close>

definition collectCRDsP ::
  "nat \<Rightarrow> (string \<Rightarrow> string + CustomResourceDefinition) \<Rightarrow> (chart_file \<Rightarrow> bool) \<Rightarrow> addr \<Rightarrow> string
     \<Rightarrow> walk \<Rightarrow> walk option" where
  "collectCRDsP fuel unmarshal isCRD ch sourceName st =
     (case CRDObjectsAt fuel isCRD (heap st) ch of
        None \<Rightarrow> None
      | Some crds \<Rightarrow> Some (foldl (collectStepP unmarshal sourceName) st crds))"

text \<open>
  Lines 55 to 66 on the store: the loop over the dependency pointers of the main
  chart, and the whole collection from two fresh maps.
\<close>

fun collectDepsP ::
  "nat \<Rightarrow> (string \<Rightarrow> string + CustomResourceDefinition) \<Rightarrow> (chart_file \<Rightarrow> bool) \<Rightarrow> walk
     \<Rightarrow> addr list \<Rightarrow> walk option" where
  "collectDepsP fuel unmarshal isCRD st [] = Some st"
| "collectDepsP fuel unmarshal isCRD st (dep # deps) =
     (case collectCRDsP fuel unmarshal isCRD dep (chartNameAt (heap st) dep) st of
        None \<Rightarrow> None
      | Some st' \<Rightarrow> collectDepsP fuel unmarshal isCRD st' deps)"

definition collectAllP ::
  "nat \<Rightarrow> (string \<Rightarrow> string + CustomResourceDefinition) \<Rightarrow> (chart_file \<Rightarrow> bool) \<Rightarrow> store \<Rightarrow> addr
     \<Rightarrow> walk option" where
  "collectAllP fuel unmarshal isCRD s ch =
     (case collectCRDsP fuel unmarshal isCRD ch (chartNameAt s ch)
             \<lparr>heap = s, crdMapP = Map.empty, sourceMapP = Map.empty, printedP = []\<rparr> of
        None \<Rightarrow> None
      | Some st \<Rightarrow> collectDepsP fuel unmarshal isCRD st (oDependencies (chartAt (heap st) ch)))"

text \<open>
  A walk on the store and a collector on chart values agree when the files behind the
  stored pointers are the stored files, and the sources and printed lines are equal.
\<close>

definition agrees :: "walk \<Rightarrow> collector \<Rightarrow> bool" where
  "agrees st c = ((\<forall>k. map_option (fileAt (heap st)) (crdMapP st k) = crdMap c k)
                  \<and> sourceMapP st = sourceMap c \<and> printedP st = printed c)"

section \<open>Example charts\<close>

definition mkMeta :: "string \<Rightarrow> metadata" where
  "mkMeta n = \<lparr>MetaName = n, Version = ''v1.2.3'', Description = ''a chart'',
                ChartAPIVersion = ''v2'', Annotations = [], Descriptive = []\<rparr>"

definition mkFile :: "string \<Rightarrow> string \<Rightarrow> chart_file" where
  "mkFile n d = \<lparr>Name = n, Data = d\<rparr>"

text \<open>
  A root chart whose dependency \<open>middle\<close> has only a template (its \<open>Files\<close> are
  empty) and itself depends on \<open>leaf\<close>, which ships a schema file.
\<close>

definition exLeaf :: chart where
  "exLeaf = Chart [] (Some (mkMeta ''leaf'')) []
     [mkFile ''crds/foo.yaml'' ''foo'', mkFile ''README.md'' ''leaf readme''] []"

definition exMiddle :: chart where
  "exMiddle = Chart [] (Some (mkMeta ''middle''))
     [mkFile ''templates/_helpers.tpl'' ''helpers''] [] [exLeaf]"

definition exUmbrella :: chart where
  "exUmbrella = Chart [] (Some (mkMeta ''root'')) []
     [mkFile ''crds/root.yaml'' ''root crd'', mkFile ''README.md'' ''root readme''] [exMiddle]"

text \<open>The same tree with a file in \<open>middle\<close>, so that the recursion goes through it.\<close>

definition exMiddleFull :: chart where
  "exMiddleFull = Chart [] (Some (mkMeta ''middle'')) []
     [mkFile ''.helmignore'' ''*.bak''] [exLeaf]"

definition exNested :: chart where
  "exNested = Chart [] (Some (mkMeta ''root'')) []
     [mkFile ''crds/root.yaml'' ''root crd'', mkFile ''README.md'' ''root readme'']
     [exMiddleFull]"

text \<open>
  A decoder for the examples: it knows a few documents and rejects every other input.
\<close>

definition crdDoc :: "string \<Rightarrow> string \<Rightarrow> CustomResourceDefinition" where
  "crdDoc g k = \<lparr>APIVersion = ''apiextensions.k8s.io/v1'', TypeKind = ''CustomResourceDefinition'',
                 SpecGroup = g, SpecNamesKind = k\<rparr>"

definition exUnmarshal :: "string \<Rightarrow> string + CustomResourceDefinition" where
  "exUnmarshal data =
     (if data = ''g/Foo from root'' \<or> data = ''g/Foo from dep'' then Inr (crdDoc ''g'' ''Foo'')
      else if data = ''g/Bar'' then Inr (crdDoc ''g'' ''Bar'')
      else if data = ''a ConfigMap'' then
        Inr \<lparr>APIVersion = ''v1'', TypeKind = ''ConfigMap'', SpecGroup = [], SpecNamesKind = []\<rparr>
      else Inl ''cannot unmarshal'')"

text \<open>
  Scenario A: the root and its only dependency both ship \<^verbatim>\<open>crds/foo.yaml\<close> for the key
  (g, Foo), with different contents.
\<close>

definition keyFoo :: GroupKind where
  "keyFoo = \<lparr>Group = ''g'', Kind = ''Foo''\<rparr>"

definition exDepA :: chart where
  "exDepA = Chart [] (Some (mkMeta ''dep'')) []
     [mkFile ''crds/foo.yaml'' ''g/Foo from dep''] []"

definition exRootA :: chart where
  "exRootA = Chart [] (Some (mkMeta ''root'')) []
     [mkFile ''crds/foo.yaml'' ''g/Foo from root''] [exDepA]"

text \<open>A decoder into maps and an encoder for the examples.\<close>

definition exUnmarshalMap :: "string \<Rightarrow> string + (string \<times> json) list option" where
  "exUnmarshalMap data =
     (if data = ''project: hello'' then Inr (Some [(''project'', JString ''hello'')])
      else if data = ''chart: {version: 1}'' then
        Inr (Some [(''chart'', JObject [(''version'', JNumber ''1'')])])
      else if data = [] then Inr None
      else Inl ''cannot unmarshal'')"

definition exMarshal :: "(string \<times> json) list \<Rightarrow> string + string" where
  "exMarshal m = Inr (concat (map (\<lambda>kv. fst kv @ '';'') m))"

text \<open>A chart whose \<^verbatim>\<open>doc.yaml\<close> cannot be decoded.\<close>

definition exBadDoc :: chart where
  "exBadDoc = Chart
     [mkFile ''doc.yaml'' ''{not yaml'', mkFile ''README.md'' ''readme'']
     (Some (mkMeta ''root'')) []
     [mkFile ''doc.yaml'' ''{not yaml'', mkFile ''README.md'' ''readme''] []"

text \<open>
  Scenario A in a store: the root at address 0 with its file at address 10, the
  dependency at address 1 with its file at address 11.
\<close>

definition exStore :: store where
  "exStore =
     \<lparr>chartAt = (\<lambda>a. if a = 0
                     then \<lparr>oRaw = [], oMetadata = Some (mkMeta ''root''), oTemplates = [],
                           oFiles = [10], oDependencies = [1]\<rparr>
                     else \<lparr>oRaw = [], oMetadata = Some (mkMeta ''dep''), oTemplates = [],
                           oFiles = [11], oDependencies = []\<rparr>),
      fileAt = (\<lambda>a. if a = 10 then mkFile ''crds/foo.yaml'' ''g/Foo from root''
                    else mkFile ''crds/foo.yaml'' ''g/Foo from dep'')\<rparr>"

section \<open>Properties of the CRD remover\<close>

lemma HasPrefix_crds [simp]:
  "HasPrefix (c1 # c2 # c3 # c4 # c5 # rest) ''crds/'' = (c1 # c2 # c3 # c4 # [c5] = ''crds/'')"
  "HasPrefix [] ''crds/'' = False"
  "HasPrefix [c1] ''crds/'' = False"
  "HasPrefix [c1, c2] ''crds/'' = False"
  "HasPrefix [c1, c2, c3] ''crds/'' = False"
  "HasPrefix [c1, c2, c3, c4] ''crds/'' = False"
  by (simp_all add: HasPrefix_def)

lemma removeCRDs_Files:
  "Files (removeCRDsFromChart ch) = filter (\<lambda>f. \<not> isCRDFile f) (Files ch)"
  by (cases ch) (simp add: isCRDFile_def)

lemma removeCRDs_Dependencies:
  "Dependencies (removeCRDsFromChart ch) =
     map (\<lambda>dep. if embeddedArchive dep then removeCRDsFromChart dep else dep) (Dependencies ch)"
  by (cases ch) simp

lemma removeCRDs_Metadata: "Metadata (removeCRDsFromChart ch) = Metadata ch"
  by (cases ch) simp

lemma removeCRDs_Raw: "Raw (removeCRDsFromChart ch) = Raw ch"
  by (cases ch) simp

lemma removeCRDs_Templates: "Templates (removeCRDsFromChart ch) = Templates ch"
  by (cases ch) simp

lemma removeCRDs_skeleton: "skeletonOf (removeCRDsFromChart ch) = skeletonOf ch"
  by (induction ch rule: removeCRDsFromChart.induct) simp

lemma removeCRDs_nodeCount: "nodeCount (removeCRDsFromChart ch) = nodeCount ch"
proof (induction ch rule: removeCRDsFromChart.induct)
  case (1 raw md tpl fs deps)
  have h: "map (nodeCount \<circ> (\<lambda>dep. if embeddedArchive dep then removeCRDsFromChart dep else dep)) deps
           = map nodeCount deps"
    using 1 by (intro map_cong) auto
  show ?case by (simp add: h)
qed

text \<open>
  C4 (idempotence of stripping). Removing the CRDs of a chart from which they were
  already removed returns that chart unchanged: the second run removes no file and
  changes no node.
\<close>

theorem removeCRDs_idempotent:
  "removeCRDsFromChart (removeCRDsFromChart ch) = removeCRDsFromChart ch"
proof (induction ch rule: removeCRDsFromChart.induct)
  case (1 raw md tpl fs deps)
  have "(if embeddedArchive (if embeddedArchive d then removeCRDsFromChart d else d)
         then removeCRDsFromChart (if embeddedArchive d then removeCRDsFromChart d else d)
         else (if embeddedArchive d then removeCRDsFromChart d else d))
        = (if embeddedArchive d then removeCRDsFromChart d else d)" if "d \<in> set deps" for d
    using 1[OF that] by simp
  then show ?case by simp
qed

text \<open>
  C5 (shape preservation of stripping). The stripped chart has the same metadata (and so
  the same name) and the same children in the same order at every level, hence the same
  number of nodes and, at the root, a dependency list of the same length carrying the
  same metadata entry by entry; the raw files and the templates of the root are
  untouched. Only the \<open>Files\<close> lists change.
\<close>

theorem removeCRDs_shape:
  "skeletonOf (removeCRDsFromChart ch) = skeletonOf ch
   \<and> nodeCount (removeCRDsFromChart ch) = nodeCount ch
   \<and> Metadata (removeCRDsFromChart ch) = Metadata ch
   \<and> length (Dependencies (removeCRDsFromChart ch)) = length (Dependencies ch)
   \<and> map Metadata (Dependencies (removeCRDsFromChart ch)) = map Metadata (Dependencies ch)
   \<and> Raw (removeCRDsFromChart ch) = Raw ch
   \<and> Templates (removeCRDsFromChart ch) = Templates ch"
proof -
  have "map Metadata (Dependencies (removeCRDsFromChart ch)) = map Metadata (Dependencies ch)"
    by (simp add: removeCRDs_Dependencies removeCRDs_Metadata comp_def if_distrib)
  moreover have "length (Dependencies (removeCRDsFromChart ch)) = length (Dependencies ch)"
    by (simp add: removeCRDs_Dependencies)
  ultimately show ?thesis
    by (simp add: removeCRDs_skeleton removeCRDs_nodeCount removeCRDs_Metadata
        removeCRDs_Raw removeCRDs_Templates)
qed

text \<open>
  C6 (completeness of stripping), evaluated on two trees. In \<open>exNested\<close> the dependency
  \<open>middle\<close> holds a file of its own, the recursion goes through it, and no schema file
  is left at any depth. In \<open>exUmbrella\<close> the same dependency holds no file of its own:
  the test of line 103 fails, \<open>middle\<close> is appended unchanged, and the schema file
  \<^verbatim>\<open>crds/foo.yaml\<close> of \<open>leaf\<close> below it is still there after the transform.
\<close>

theorem removeCRDs_skips_dependency_without_files:
  "crdFree (removeCRDsFromChart exNested)
   \<and> Dependencies (removeCRDsFromChart exUmbrella) = [exMiddle]
   \<and> Dependencies (hd (Dependencies (removeCRDsFromChart exUmbrella))) = [exLeaf]
   \<and> mkFile ''crds/foo.yaml'' ''foo''
       \<in> set (Files (hd (Dependencies (hd (Dependencies (removeCRDsFromChart exUmbrella))))))
   \<and> isCRDFile (mkFile ''crds/foo.yaml'' ''foo'')
   \<and> \<not> crdFree (removeCRDsFromChart exUmbrella)"
  by (simp add: exNested_def exMiddleFull_def exUmbrella_def exMiddle_def exLeaf_def
      embeddedArchive_def isCRDFile_def mkFile_def)

section \<open>Properties of the CRD collector\<close>

lemma step_keep:
  assumes "sourceMap st k = Some s"
  shows "crdMap (collectStep u src st x) k = crdMap st k \<and> sourceMap (collectStep u src st x) k = Some s"
  using assms by (auto simp: collectStep_def split: sum.splits option.splits)

lemma step_other:
  assumes "\<not> hasKey u k x"
  shows "crdMap (collectStep u src st x) k = crdMap st k \<and> sourceMap (collectStep u src st x) k = sourceMap st k"
  using assms by (auto simp: collectStep_def hasKey_def split: sum.splits option.splits)

lemma step_insert:
  assumes "hasKey u k x" "sourceMap st k = None"
  shows "crdMap (collectStep u src st x) k = Some x \<and> sourceMap (collectStep u src st x) k = Some src"
  using assms by (auto simp: collectStep_def hasKey_def split: sum.splits option.splits)

lemma step_dom:
  assumes "dom (crdMap st) = dom (sourceMap st)"
  shows "dom (crdMap (collectStep u src st x)) = dom (sourceMap (collectStep u src st x))"
  using assms by (auto simp: collectStep_def split: sum.splits option.splits)

lemma step_hasKey:
  assumes "\<forall>k f. crdMap st k = Some f \<longrightarrow> hasKey u k f"
  shows "\<forall>k f. crdMap (collectStep u src st x) k = Some f \<longrightarrow> hasKey u k f"
  using assms by (auto simp: collectStep_def hasKey_def split: sum.splits option.splits if_splits)

lemma fold_keep:
  "sourceMap st k = Some s \<Longrightarrow>
    crdMap (foldl (collectStep u src) st xs) k = crdMap st k \<and>
    sourceMap (foldl (collectStep u src) st xs) k = Some s"
proof (induction xs arbitrary: st)
  case Nil then show ?case by simp
next
  case (Cons x xs)
  from step_keep[OF Cons.prems, of u src x]
  have a: "crdMap (collectStep u src st x) k = crdMap st k"
    and b: "sourceMap (collectStep u src st x) k = Some s" by simp_all
  from Cons.IH[OF b] a show ?case by simp
qed

lemma fold_dom:
  "dom (crdMap st) = dom (sourceMap st) \<Longrightarrow>
   dom (crdMap (foldl (collectStep u src) st xs)) = dom (sourceMap (foldl (collectStep u src) st xs))"
  by (induction xs arbitrary: st) (simp_all add: step_dom)

lemma fold_hasKey:
  "\<forall>k f. crdMap st k = Some f \<longrightarrow> hasKey u k f \<Longrightarrow>
   \<forall>k f. crdMap (foldl (collectStep u src) st xs) k = Some f \<longrightarrow> hasKey u k f"
proof (induction xs arbitrary: st)
  case Nil then show ?case by simp
next
  case (Cons x xs)
  show ?case using Cons.IH[OF step_hasKey[OF Cons.prems, of src x]] by simp
qed

lemma fold_first:
  "sourceMap st k = None \<Longrightarrow> find (hasKey u k) xs = Some f \<Longrightarrow>
    crdMap (foldl (collectStep u src) st xs) k = Some f \<and>
    sourceMap (foldl (collectStep u src) st xs) k = Some src"
proof (induction xs arbitrary: st)
  case Nil then show ?case by simp
next
  case (Cons x xs)
  show ?case
  proof (cases "hasKey u k x")
    case True
    with Cons.prems have fx: "f = x" by simp
    from step_insert[OF True Cons.prems(1), of src]
    have a: "crdMap (collectStep u src st x) k = Some x"
      and b: "sourceMap (collectStep u src st x) k = Some src" by simp_all
    from fold_keep[OF b, of u src xs] a fx show ?thesis by simp
  next
    case False
    with Cons.prems have f: "find (hasKey u k) xs = Some f" by simp
    from step_other[OF False, of src st] Cons.prems(1)
    have b: "sourceMap (collectStep u src st x) k = None" by simp
    from Cons.IH[OF b f] show ?thesis by simp
  qed
qed

lemma find_filter: "find P (filter Q xs) = find (\<lambda>x. Q x \<and> P x) xs"
  by (induction xs) auto

lemma find_append_Some: "find P xs = Some x \<Longrightarrow> find P (xs @ ys) = Some x"
  by (induction xs) (auto split: if_splits)

lemma CRDObjects_own: "CRDObjects isCRD ch = filter isCRD (Files ch) @ concat (map (CRDObjects isCRD) (Dependencies ch))"
  by (cases ch) simp

lemma deps_keep:
  "sourceMap st k = Some s \<Longrightarrow>
    crdMap (foldl (\<lambda>st dep. collectCRDs u isCRD dep (chartName dep) st) st ds) k = crdMap st k \<and>
    sourceMap (foldl (\<lambda>st dep. collectCRDs u isCRD dep (chartName dep) st) st ds) k = Some s"
proof (induction ds arbitrary: st)
  case Nil then show ?case by simp
next
  case (Cons d ds)
  from fold_keep[OF Cons.prems, of u "chartName d" "CRDObjects isCRD d"]
  have a: "crdMap (collectCRDs u isCRD d (chartName d) st) k = crdMap st k"
    and b: "sourceMap (collectCRDs u isCRD d (chartName d) st) k = Some s"
    by (simp_all add: collectCRDs_def)
  from Cons.IH[OF b] a show ?case by simp
qed

lemma hasKey_fun: "hasKey u k f \<Longrightarrow> hasKey u k' f \<Longrightarrow> k = k'"
  by (simp add: hasKey_def)

lemma collectCRDs_keep:
  "sourceMap st k = Some s \<Longrightarrow>
    crdMap (collectCRDs u isCRD d src st) k = crdMap st k \<and>
    sourceMap (collectCRDs u isCRD d src st) k = Some s"
  by (simp add: collectCRDs_def fold_keep)

lemma collectCRDs_dom:
  "dom (crdMap st) = dom (sourceMap st) \<Longrightarrow>
   dom (crdMap (collectCRDs u isCRD d src st)) = dom (sourceMap (collectCRDs u isCRD d src st))"
  by (simp add: collectCRDs_def fold_dom)

lemma collectCRDs_hasKey:
  "\<forall>k f. crdMap st k = Some f \<longrightarrow> hasKey u k f \<Longrightarrow>
   \<forall>k f. crdMap (collectCRDs u isCRD d src st) k = Some f \<longrightarrow> hasKey u k f"
  unfolding collectCRDs_def by (rule fold_hasKey)

lemma deps_hasKey:
  "\<forall>k f. crdMap st k = Some f \<longrightarrow> hasKey u k f \<Longrightarrow>
   \<forall>k f. crdMap (foldl (\<lambda>st dep. collectCRDs u isCRD dep (chartName dep) st) st ds) k = Some f
      \<longrightarrow> hasKey u k f"
proof (induction ds arbitrary: st)
  case Nil then show ?case by simp
next
  case (Cons d ds)
  show ?case using Cons.IH[OF collectCRDs_hasKey[OF Cons.prems, of isCRD d "chartName d"]] by simp
qed

lemma collectAll_hasKey: "crdMap (collectAll u isCRD ch) k = Some f \<Longrightarrow> hasKey u k f"
proof -
  have "\<forall>k f. crdMap (freshCollector ch) k = Some f \<longrightarrow> hasKey u k f"
    by (simp add: freshCollector_def)
  from deps_hasKey[OF collectCRDs_hasKey[OF this]]
  show "crdMap (collectAll u isCRD ch) k = Some f \<Longrightarrow> hasKey u k f"
    by (simp add: collectAll_def)
qed

lemma dom_Some: "dom (crdMap st) = dom (sourceMap st) \<Longrightarrow> crdMap st k = Some f \<Longrightarrow> \<exists>s. sourceMap st k = Some s"
  by (metis domD domI)

lemma scenarioA_root_pass: "collectCRDs exUnmarshal isCRDFile exRootA ''root'' (freshCollector exRootA) =
   \<lparr>loaded = exRootA, crdMap = [keyFoo \<mapsto> mkFile ''crds/foo.yaml'' ''g/Foo from root''],
    sourceMap = [keyFoo \<mapsto> ''root''], printed = [Duplicated keyFoo ''root'' ''root'']\<rparr>"
  by (simp add: collectCRDs_def freshCollector_def exRootA_def exDepA_def isCRDFile_def mkFile_def
      collectStep_def extractCRDKey_def exUnmarshal_def crdDoc_def keyFoo_def)

text \<open>
  C1 (precedence of collection). When the root chart holds a schema file whose bytes
  give the key \<open>k\<close>, the document kept for \<open>k\<close> after the whole collection is the
  first such file of the root, recorded with the root's name as its source, whatever
  the dependencies hold for the same key.
\<close>

theorem collectAll_root_precedence:
  assumes "f \<in> set (Files ch)" "isCRD f" "hasKey u k f"
  shows "crdMap (collectAll u isCRD ch) k = find (\<lambda>g. isCRD g \<and> hasKey u k g) (Files ch)
       \<and> (\<exists>g \<in> set (Files ch). crdMap (collectAll u isCRD ch) k = Some g)
       \<and> sourceMap (collectAll u isCRD ch) k = Some (chartName ch)"
proof -
  from assms obtain g where g: "find (\<lambda>g. isCRD g \<and> hasKey u k g) (Files ch) = Some g"
    by (cases "find (\<lambda>g. isCRD g \<and> hasKey u k g) (Files ch)") (auto simp: find_None_iff)
  then have gin: "g \<in> set (Files ch)"
    by (auto simp: find_Some_iff)
  from g have "find (hasKey u k) (CRDObjects isCRD ch) = Some g"
    by (simp add: CRDObjects_own find_filter find_append_Some)
  from fold_first[OF _ this, of "freshCollector ch" "chartName ch"]
  have a: "crdMap (collectCRDs u isCRD ch (chartName ch) (freshCollector ch)) k = Some g"
    and b: "sourceMap (collectCRDs u isCRD ch (chartName ch) (freshCollector ch)) k = Some (chartName ch)"
    by (simp_all add: collectCRDs_def freshCollector_def)
  from deps_keep[OF b, of u isCRD "Dependencies ch"] a
  have "crdMap (collectAll u isCRD ch) k = Some g" "sourceMap (collectAll u isCRD ch) k = Some (chartName ch)"
    by (simp_all add: collectAll_def)
  with g gin show ?thesis by auto
qed


theorem collectAll_root_precedence_witness:
  "mkFile ''crds/foo.yaml'' ''g/Foo from root'' \<in> set (Files exRootA)
   \<and> isCRDFile (mkFile ''crds/foo.yaml'' ''g/Foo from root'')
   \<and> hasKey exUnmarshal keyFoo (mkFile ''crds/foo.yaml'' ''g/Foo from root'')
   \<and> mkFile ''crds/foo.yaml'' ''g/Foo from dep'' \<in> set (Files (hd (Dependencies exRootA)))
   \<and> hasKey exUnmarshal keyFoo (mkFile ''crds/foo.yaml'' ''g/Foo from dep'')
   \<and> crdMap (collectAll exUnmarshal isCRDFile exRootA) keyFoo
       = Some (mkFile ''crds/foo.yaml'' ''g/Foo from root'')
   \<and> sourceMap (collectAll exUnmarshal isCRDFile exRootA) keyFoo = Some ''root''"
proof -
  have a: "mkFile ''crds/foo.yaml'' ''g/Foo from root'' \<in> set (Files exRootA)"
    by (simp add: exRootA_def)
  have b: "isCRDFile (mkFile ''crds/foo.yaml'' ''g/Foo from root'')"
    by (simp add: isCRDFile_def mkFile_def)
  have c: "hasKey exUnmarshal keyFoo (mkFile ''crds/foo.yaml'' ''g/Foo from root'')"
    by (simp add: hasKey_def extractCRDKey_def exUnmarshal_def crdDoc_def keyFoo_def mkFile_def)
  have d: "mkFile ''crds/foo.yaml'' ''g/Foo from dep'' \<in> set (Files (hd (Dependencies exRootA)))"
    by (simp add: exRootA_def exDepA_def)
  have e: "hasKey exUnmarshal keyFoo (mkFile ''crds/foo.yaml'' ''g/Foo from dep'')"
    by (simp add: hasKey_def extractCRDKey_def exUnmarshal_def crdDoc_def keyFoo_def mkFile_def)
  have f: "find (\<lambda>g. isCRDFile g \<and> hasKey exUnmarshal keyFoo g) (Files exRootA)
           = Some (mkFile ''crds/foo.yaml'' ''g/Foo from root'')"
    using b c by (simp add: exRootA_def)
  have n: "chartName exRootA = ''root''"
    by (simp add: chartName_def exRootA_def mkMeta_def)
  show ?thesis
    using collectAll_root_precedence [where isCRD = isCRDFile, OF a b c] a b c d e f n by simp
qed

text \<open>
  C2 (duplicate diagnostic), evaluated on scenario A. The walk of the root already lists
  the schema file of the dependency and reports it as duplicated in the root itself;
  the walk of the dependency then reports the same file again. Two duplicate lines are
  printed, and the first names the root as the discarded source.
\<close>

theorem collectAll_scenarioA_warnings: "printed (collectAll exUnmarshal isCRDFile exRootA) =
    [Duplicated keyFoo ''root'' ''root'', Duplicated keyFoo ''dep'' ''root'']"
  by (simp add: collectAll_def collectCRDs_def freshCollector_def exRootA_def exDepA_def isCRDFile_def mkFile_def
      collectStep_def extractCRDKey_def exUnmarshal_def crdDoc_def keyFoo_def chartName_def mkMeta_def)

text \<open>
  C3 (uniqueness and first writer wins). Every document kept by the collection is stored
  under the key its own bytes give, so two kept documents with the same key are one
  document under one key. From a state in which both maps have the same keys (as they
  do from the fresh maps on), neither one more file nor one more walk replaces the
  document of a key already present; and what the walk of the root has stored survives
  the walks of the dependencies.
\<close>

theorem collect_unique_first_writer_wins:
  "(crdMap (collectAll u isCRD ch) k1 = Some f1 \<longrightarrow> crdMap (collectAll u isCRD ch) k2 = Some f2
      \<longrightarrow> hasKey u k f1 \<longrightarrow> hasKey u k f2 \<longrightarrow> k1 = k \<and> k2 = k \<and> f1 = f2)
   \<and> (dom (crdMap st) = dom (sourceMap st) \<longrightarrow> crdMap st k = Some f \<longrightarrow>
        crdMap (collectStep u src st x) k = Some f
        \<and> crdMap (collectCRDs u isCRD d src st) k = Some f
        \<and> dom (crdMap (collectCRDs u isCRD d src st)) = dom (sourceMap (collectCRDs u isCRD d src st)))
   \<and> (crdMap (collectCRDs u isCRD ch (chartName ch) (freshCollector ch)) k = Some f \<longrightarrow>
        crdMap (collectAll u isCRD ch) k = Some f)"
proof (intro conjI impI)
  assume a: "crdMap (collectAll u isCRD ch) k1 = Some f1" "crdMap (collectAll u isCRD ch) k2 = Some f2"
    "hasKey u k f1" "hasKey u k f2"
  from collectAll_hasKey[OF a(1)] a(3) show k1: "k1 = k" by (rule hasKey_fun)
  from collectAll_hasKey[OF a(2)] a(4) show k2: "k2 = k" by (rule hasKey_fun)
  from a(1,2) k1 k2 show "f1 = f2" by simp
next
  assume a: "dom (crdMap st) = dom (sourceMap st)" "crdMap st k = Some f"
  from dom_Some[OF a] obtain s where s: "sourceMap st k = Some s" by blast
  from step_keep[OF s, of u src x] a(2) show "crdMap (collectStep u src st x) k = Some f" by simp
  from collectCRDs_keep[OF s, of u isCRD d src] a(2) show "crdMap (collectCRDs u isCRD d src st) k = Some f" by simp
  from collectCRDs_dom[OF a(1)] show "dom (crdMap (collectCRDs u isCRD d src st)) = dom (sourceMap (collectCRDs u isCRD d src st))" .
next
  assume a: "crdMap (collectCRDs u isCRD ch (chartName ch) (freshCollector ch)) k = Some f"
  have "dom (crdMap (freshCollector ch)) = dom (sourceMap (freshCollector ch))"
    by (simp add: freshCollector_def)
  from dom_Some[OF collectCRDs_dom[OF this] a] obtain s
    where s: "sourceMap (collectCRDs u isCRD ch (chartName ch) (freshCollector ch)) k = Some s" by blast
  from deps_keep[OF s, of u isCRD "Dependencies ch"] a
  show "crdMap (collectAll u isCRD ch) k = Some f" by (simp add: collectAll_def)
qed

theorem collect_unique_first_writer_wins_witness:
  "crdMap (collectAll exUnmarshal isCRDFile exRootA) keyFoo
      = Some (mkFile ''crds/foo.yaml'' ''g/Foo from root'')
   \<and> hasKey exUnmarshal keyFoo (mkFile ''crds/foo.yaml'' ''g/Foo from root'')
   \<and> dom (crdMap (collectCRDs exUnmarshal isCRDFile exRootA ''root'' (freshCollector exRootA)))
       = dom (sourceMap (collectCRDs exUnmarshal isCRDFile exRootA ''root'' (freshCollector exRootA)))
   \<and> crdMap (collectCRDs exUnmarshal isCRDFile exRootA ''root'' (freshCollector exRootA)) keyFoo
       = Some (mkFile ''crds/foo.yaml'' ''g/Foo from root'')
   \<and> hasKey exUnmarshal keyFoo (mkFile ''crds/foo.yaml'' ''g/Foo from dep'')
   \<and> crdMap (collectStep exUnmarshal ''dep''
          (collectCRDs exUnmarshal isCRDFile exRootA ''root'' (freshCollector exRootA))
          (mkFile ''crds/foo.yaml'' ''g/Foo from dep'')) keyFoo
       = Some (mkFile ''crds/foo.yaml'' ''g/Foo from root'')
   \<and> crdMap (collectCRDs exUnmarshal isCRDFile exDepA ''dep''
          (collectCRDs exUnmarshal isCRDFile exRootA ''root'' (freshCollector exRootA))) keyFoo
       = Some (mkFile ''crds/foo.yaml'' ''g/Foo from root'')"
proof -
  let ?st = "collectCRDs exUnmarshal isCRDFile exRootA ''root'' (freshCollector exRootA)"
  let ?fr = "mkFile ''crds/foo.yaml'' ''g/Foo from root''"
  let ?fd = "mkFile ''crds/foo.yaml'' ''g/Foo from dep''"
  have n: "chartName exRootA = ''root''"
    by (simp add: chartName_def exRootA_def mkMeta_def)
  have a: "dom (crdMap ?st) = dom (sourceMap ?st)"
    by (simp add: scenarioA_root_pass)
  have b: "crdMap ?st keyFoo = Some ?fr"
    by (simp add: scenarioA_root_pass)
  have c: "hasKey exUnmarshal keyFoo ?fr" "hasKey exUnmarshal keyFoo ?fd"
    by (simp_all add: hasKey_def extractCRDKey_def exUnmarshal_def crdDoc_def keyFoo_def mkFile_def)
  from collect_unique_first_writer_wins
         [of exUnmarshal isCRDFile exRootA keyFoo ?fr keyFoo ?fr keyFoo ?st ?fr "''dep''" ?fd exDepA]
  show ?thesis using a b c n by simp
qed

section \<open>The collector on the store\<close>

lemma those_Some: "those xs = Some ys \<longleftrightarrow> list_all2 (\<lambda>x y. x = Some y) xs ys"
proof (induction xs arbitrary: ys)
  case Nil then show ?case by auto
next
  case (Cons x xs)
  then show ?case by (cases x; cases ys) (auto)
qed

lemma those_map_Some: "those (map f ps) = Some cs \<longleftrightarrow> list_all2 (\<lambda>p c. f p = Some c) ps cs"
  by (simp add: those_Some list_all2_map1)

lemma stepP_heap: "heap (collectStepP u src st a) = heap st"
  by (simp add: collectStepP_def split: sum.splits option.splits)

lemma foldP_heap: "heap (foldl (collectStepP u src) st as) = heap st"
  by (induction as arbitrary: st) (simp_all add: stepP_heap)

lemma collectCRDsP_heap: "collectCRDsP fuel u isCRD p src st = Some st' \<Longrightarrow> heap st' = heap st"
  by (auto simp: collectCRDsP_def foldP_heap split: option.splits)

lemma collectDepsP_heap: "collectDepsP fuel u isCRD st ps = Some st' \<Longrightarrow> heap st' = heap st"
proof (induction ps arbitrary: st)
  case Nil then show ?case by simp
next
  case (Cons p ps)
  then show ?case by (auto split: option.splits dest: collectCRDsP_heap)
qed

lemma stepP_agrees:
  assumes "agrees st c"
  shows "agrees (collectStepP u src st a) (collectStep u src c (fileAt (heap st) a))"
  using assms
  by (auto simp: agrees_def collectStepP_def collectStep_def split: sum.splits option.splits)

lemma foldP_agrees:
  "agrees st c \<Longrightarrow> heap st = s \<Longrightarrow>
   agrees (foldl (collectStepP u src) st as) (foldl (collectStep u src) c (map (fileAt s) as))"
proof (induction as arbitrary: st c)
  case Nil then show ?case by simp
next
  case (Cons a as)
  from stepP_agrees[OF Cons.prems(1), of u src a]
  have "agrees (collectStepP u src st a) (collectStep u src c (fileAt s a))"
    using Cons.prems(2) by simp
  from Cons.IH[OF this] Cons.prems(2) show ?case by (simp add: stepP_heap)
qed

lemma crds_list:
  "list_all2 (\<lambda>p c. \<exists>as. f p = Some as \<and> map g as = k c) ps cs \<Longrightarrow>
   \<exists>ass. those (map f ps) = Some ass \<and> map g (concat ass) = concat (map k cs)"
proof (induction ps cs rule: list_all2_induct)
  case Nil then show ?case by simp
next
  case (Cons p ps c cs)
  then show ?case by auto
qed

lemma CRDObjectsAt_read:
  "readChart n s p = Some ch \<Longrightarrow> n \<le> m \<Longrightarrow>
   \<exists>as. CRDObjectsAt m isCRD s p = Some as \<and> map (fileAt s) as = CRDObjects isCRD ch"
proof (induction n arbitrary: m p ch)
  case 0 then show ?case by simp
next
  case (Suc n)
  from Suc.prems(2) obtain m' where m: "m = Suc m'" "n \<le> m'" by (cases m) auto
  from Suc.prems(1) obtain deps where
    d: "those (map (readChart n s) (oDependencies (chartAt s p))) = Some deps"
    and ch: "ch = Chart (map (fileAt s) (oRaw (chartAt s p))) (oMetadata (chartAt s p))
                  (map (fileAt s) (oTemplates (chartAt s p)))
                  (map (fileAt s) (oFiles (chartAt s p))) deps"
    by (auto split: option.splits)
  from d have "list_all2 (\<lambda>p c. readChart n s p = Some c) (oDependencies (chartAt s p)) deps"
    by (simp add: those_map_Some)
  then have "list_all2 (\<lambda>p c. \<exists>as. CRDObjectsAt m' isCRD s p = Some as
                 \<and> map (fileAt s) as = CRDObjects isCRD c) (oDependencies (chartAt s p)) deps"
    using Suc.IH[OF _ m(2)] by (auto elim!: list_all2_mono)
  from crds_list[OF this] obtain ass where
    a: "those (map (CRDObjectsAt m' isCRD s) (oDependencies (chartAt s p))) = Some ass"
    and b: "map (fileAt s) (concat ass) = concat (map (CRDObjects isCRD) deps)" by blast
  show ?case using a b ch m by (simp add: filter_map comp_def)
qed

lemma chartNameAt_read: "readChart n s p = Some ch \<Longrightarrow> chartNameAt s p = chartName ch"
  by (cases n) (auto simp: chartNameAt_def chartName_def split: option.splits)

lemma readChart_mono: "readChart n s p = Some ch \<Longrightarrow> n \<le> m \<Longrightarrow> readChart m s p = Some ch"
proof (induction n arbitrary: m p ch)
  case 0 then show ?case by simp
next
  case (Suc n)
  from Suc.prems(2) obtain m' where m: "m = Suc m'" "n \<le> m'" by (cases m) auto
  from Suc.prems(1) obtain deps where
    d: "those (map (readChart n s) (oDependencies (chartAt s p))) = Some deps"
    by (auto split: option.splits)
  then have "list_all2 (\<lambda>p c. readChart n s p = Some c) (oDependencies (chartAt s p)) deps"
    by (simp add: those_map_Some)
  then have "list_all2 (\<lambda>p c. readChart m' s p = Some c) (oDependencies (chartAt s p)) deps"
    using Suc.IH[OF _ m(2)] by (auto elim!: list_all2_mono)
  then have "those (map (readChart m' s) (oDependencies (chartAt s p))) = Some deps"
    by (simp add: those_map_Some)
  with d Suc.prems(1) m show ?case by simp
qed

lemma collectCRDsP_agrees:
  assumes "readChart n (heap st) p = Some ch" "n \<le> m" "agrees st c"
  shows "\<exists>st'. collectCRDsP m u isCRD p src st = Some st' \<and> heap st' = heap st
           \<and> agrees st' (collectCRDs u isCRD ch src c)"
proof -
  from CRDObjectsAt_read[OF assms(1,2), of isCRD] obtain as where
    a: "CRDObjectsAt m isCRD (heap st) p = Some as"
    and b: "map (fileAt (heap st)) as = CRDObjects isCRD ch" by blast
  from foldP_agrees[OF assms(3) refl, of u src as] b
  have "agrees (foldl (collectStepP u src) st as) (collectCRDs u isCRD ch src c)"
    by (simp add: collectCRDs_def)
  with a show ?thesis by (simp add: collectCRDsP_def foldP_heap)
qed

lemma collectDepsP_agrees:
  "list_all2 (\<lambda>p c. readChart n s p = Some c) ps cs \<Longrightarrow> n \<le> m \<Longrightarrow> heap st = s \<Longrightarrow> agrees st c \<Longrightarrow>
   \<exists>st'. collectDepsP m u isCRD st ps = Some st' \<and> heap st' = s
     \<and> agrees st' (foldl (\<lambda>st dep. collectCRDs u isCRD dep (chartName dep) st) c cs)"
proof (induction ps cs arbitrary: st c rule: list_all2_induct)
  case Nil then show ?case by simp
next
  case (Cons p ps d ds)
  have r: "readChart n (heap st) p = Some d" using Cons.hyps(1) Cons.prems(2) by simp
  from collectCRDsP_agrees[OF r Cons.prems(1,3), of u isCRD "chartNameAt (heap st) p"]
  obtain st1 where s1: "collectCRDsP m u isCRD p (chartNameAt (heap st) p) st = Some st1"
    and h1: "heap st1 = s"
    and a1: "agrees st1 (collectCRDs u isCRD d (chartNameAt (heap st) p) c)"
    using Cons.prems(2) by auto
  have nm: "chartNameAt (heap st) p = chartName d" using r by (rule chartNameAt_read)
  from Cons.IH[OF Cons.prems(1) h1] a1 nm
  obtain st' where "collectDepsP m u isCRD st1 ps = Some st'" "heap st' = s"
    "agrees st' (foldl (\<lambda>st dep. collectCRDs u isCRD dep (chartName dep) st)
                  (collectCRDs u isCRD d (chartName d) c) ds)" by auto
  with s1 show ?case by simp
qed

lemma deps_read:
  "readChart n s p = Some ch \<Longrightarrow>
   list_all2 (\<lambda>p c. readChart n s p = Some c) (oDependencies (chartAt s p)) (Dependencies ch)"
proof (cases n)
  case 0
  assume "readChart n s p = Some ch" with 0 show ?thesis by simp
next
  case (Suc k)
  assume r: "readChart n s p = Some ch"
  with Suc obtain deps where
    d: "those (map (readChart k s) (oDependencies (chartAt s p))) = Some deps"
    and ch: "Dependencies ch = deps"
    by (auto split: option.splits)
  from d have "list_all2 (\<lambda>p c. readChart k s p = Some c) (oDependencies (chartAt s p)) deps"
    by (simp add: those_map_Some)
  then have "list_all2 (\<lambda>p c. readChart n s p = Some c) (oDependencies (chartAt s p)) deps"
    using readChart_mono[of k s _ _ n] Suc by (auto elim!: list_all2_mono)
  with ch show ?thesis by simp
qed

lemma collectAllP_agrees:
  assumes "readChart n s p = Some ch"
  shows "\<exists>st. collectAllP n u isCRD s p = Some st \<and> heap st = s
           \<and> agrees st (collectAll u isCRD ch)"
proof -
  let ?st0 = "\<lparr>heap = s, crdMapP = Map.empty, sourceMapP = Map.empty, printedP = []\<rparr>"
  have a0: "agrees ?st0 (freshCollector ch)" by (simp add: agrees_def freshCollector_def)
  have r0: "readChart n (heap ?st0) p = Some ch" using assms by simp
  from collectCRDsP_agrees[OF r0 le_refl a0, of u isCRD "chartNameAt s p"]
  obtain st1 where s1: "collectCRDsP n u isCRD p (chartNameAt s p) ?st0 = Some st1"
    and h1: "heap st1 = s"
    and a1: "agrees st1 (collectCRDs u isCRD ch (chartNameAt s p) (freshCollector ch))" by auto
  have nm: "chartNameAt s p = chartName ch" using assms by (rule chartNameAt_read)
  have l: "list_all2 (\<lambda>p c. readChart n s p = Some c)
             (oDependencies (chartAt (heap st1) p)) (Dependencies ch)"
    using deps_read[OF assms] h1 by simp
  from collectDepsP_agrees[OF l le_refl h1 a1, of u isCRD] nm h1
  obtain st' where "collectDepsP n u isCRD st1 (oDependencies (chartAt (heap st1) p)) = Some st'"
    "heap st' = s" "agrees st' (collectAll u isCRD ch)"
    by (auto simp: collectAll_def)
  with s1 show ?thesis by (simp add: collectAllP_def)
qed


text \<open>
  C10 (collection is read-only on the tree). A walk of the collector that returns
  leaves the store as it was, whatever the store holds: no chart object and no file
  object is written. When the store holds a chart at the pointer, the whole collection
  returns, the store is unchanged, the chart read back through the pointer after the
  collection is the chart of before (names, metadata, file lists, file bytes and
  dependency lists at every level), and the maps and printed lines are those of the
  collection on the chart value. Only the two maps and the output change.
\<close>

theorem collectCRDs_leaves_store:
  "(collectCRDsP fuel u isCRD d src st = Some st' \<longrightarrow> heap st' = heap st)
   \<and> (readChart fuel s p = Some ch \<longrightarrow>
        (\<exists>w. collectAllP fuel u isCRD s p = Some w
           \<and> heap w = s
           \<and> readChart fuel (heap w) p = Some ch
           \<and> (\<forall>k. map_option (fileAt s) (crdMapP w k) = crdMap (collectAll u isCRD ch) k)
           \<and> sourceMapP w = sourceMap (collectAll u isCRD ch)
           \<and> printedP w = printed (collectAll u isCRD ch)))"
proof (intro conjI impI)
  assume "collectCRDsP fuel u isCRD d src st = Some st'"
  then show "heap st' = heap st" by (rule collectCRDsP_heap)
next
  assume r: "readChart fuel s p = Some ch"
  from collectAllP_agrees[OF r, of u isCRD] obtain w where
    w: "collectAllP fuel u isCRD s p = Some w" "heap w = s" "agrees w (collectAll u isCRD ch)"
    by blast
  with r show "\<exists>w. collectAllP fuel u isCRD s p = Some w
           \<and> heap w = s
           \<and> readChart fuel (heap w) p = Some ch
           \<and> (\<forall>k. map_option (fileAt s) (crdMapP w k) = crdMap (collectAll u isCRD ch) k)
           \<and> sourceMapP w = sourceMap (collectAll u isCRD ch)
           \<and> printedP w = printed (collectAll u isCRD ch)"
    by (auto simp: agrees_def)
qed

theorem collectCRDs_leaves_store_witness:
  "readChart 2 exStore 0 = Some exRootA
   \<and> map_option heap (collectAllP 2 exUnmarshal isCRDFile exStore 0) = Some exStore
   \<and> map_option (\<lambda>w. readChart 2 (heap w) 0) (collectAllP 2 exUnmarshal isCRDFile exStore 0)
       = Some (Some exRootA)
   \<and> map_option (\<lambda>w. map_option (fileAt exStore) (crdMapP w keyFoo))
         (collectAllP 2 exUnmarshal isCRDFile exStore 0)
       = Some (Some (mkFile ''crds/foo.yaml'' ''g/Foo from root''))
   \<and> map_option printedP (collectAllP 2 exUnmarshal isCRDFile exStore 0)
       = Some [Duplicated keyFoo ''root'' ''root'', Duplicated keyFoo ''dep'' ''root'']"
proof -
  have r: "readChart 2 exStore 0 = Some exRootA"
    by (simp add: numeral_2_eq_2 exStore_def exRootA_def exDepA_def)
  have m: "crdMap (collectAll exUnmarshal isCRDFile exRootA) keyFoo
             = Some (mkFile ''crds/foo.yaml'' ''g/Foo from root'')"
    by (simp add: collectAll_def collectCRDs_def freshCollector_def exRootA_def exDepA_def
        isCRDFile_def mkFile_def collectStep_def extractCRDKey_def exUnmarshal_def crdDoc_def
        keyFoo_def chartName_def mkMeta_def)
  have q: "printed (collectAll exUnmarshal isCRDFile exRootA)
             = [Duplicated keyFoo ''root'' ''root'', Duplicated keyFoo ''dep'' ''root'']"
    by (simp add: collectAll_def collectCRDs_def freshCollector_def exRootA_def exDepA_def
        isCRDFile_def mkFile_def collectStep_def extractCRDKey_def exUnmarshal_def crdDoc_def
        keyFoo_def chartName_def mkMeta_def)
  from collectCRDs_leaves_store [of 2 exUnmarshal isCRDFile 0 "[]" _ _ exStore 0 exRootA] r
  obtain w where w: "collectAllP 2 exUnmarshal isCRDFile exStore 0 = Some w" "heap w = exStore"
    "readChart 2 (heap w) 0 = Some exRootA"
    "\<forall>k. map_option (fileAt exStore) (crdMapP w k) = crdMap (collectAll exUnmarshal isCRDFile exRootA) k"
    "printedP w = printed (collectAll exUnmarshal isCRDFile exRootA)"
    by blast
  from w(4) m have "map_option (fileAt exStore) (crdMapP w keyFoo)
      = Some (mkFile ''crds/foo.yaml'' ''g/Foo from root'')" by simp
  with r w q show ?thesis by simp
qed

section \<open>Properties of the key extractor\<close>

text \<open>
  C8 (key extraction). \<^verbatim>\<open>extractCRDKey\<close> returns a key exactly when the bytes decode, the
  decoded API version is not empty and the decoded kind is
  \<^verbatim>\<open>CustomResourceDefinition\<close>; the key is then (\<^verbatim>\<open>spec.group\<close>, \<^verbatim>\<open>spec.names.kind\<close>).
  In every other case it returns an error, which is no panic, and the collector prints
  one warning for the file, leaves both maps as they are and goes on.
\<close>

theorem extractCRDKey_succeeds_iff:
  "((extractCRDKey u data = Inr key) =
      (\<exists>crd. u data = Inr crd \<and> APIVersion crd \<noteq> []
         \<and> TypeKind crd = ''CustomResourceDefinition''
         \<and> key = \<lparr>Group = SpecGroup crd, Kind = SpecNamesKind crd\<rparr>))
   \<and> ((\<exists>err. extractCRDKey u data = Inl err) =
      (\<not> (\<exists>crd. u data = Inr crd \<and> APIVersion crd \<noteq> []
         \<and> TypeKind crd = ''CustomResourceDefinition'')))
   \<and> (extractCRDKey u data = Inl err \<longrightarrow> \<not> isPanic err)
   \<and> (extractCRDKey u (Data f) = Inl err \<longrightarrow>
        collectStep u src st f = st\<lparr>printed := printed st @ [ParseFailed (Name f) src err]\<rparr>)"
proof (intro conjI)
  show "(extractCRDKey u data = Inr key) =
      (\<exists>crd. u data = Inr crd \<and> APIVersion crd \<noteq> []
         \<and> TypeKind crd = ''CustomResourceDefinition''
         \<and> key = \<lparr>Group = SpecGroup crd, Kind = SpecNamesKind crd\<rparr>)"
    by (auto simp: extractCRDKey_def split: sum.splits)
  show "(\<exists>err. extractCRDKey u data = Inl err) =
      (\<not> (\<exists>crd. u data = Inr crd \<and> APIVersion crd \<noteq> []
         \<and> TypeKind crd = ''CustomResourceDefinition''))"
    by (auto simp: extractCRDKey_def split: sum.splits)
  show "extractCRDKey u data = Inl err \<longrightarrow> \<not> isPanic err"
    by (auto simp: extractCRDKey_def split: sum.splits if_splits)
  show "extractCRDKey u (Data f) = Inl err \<longrightarrow>
        collectStep u src st f = st\<lparr>printed := printed st @ [ParseFailed (Name f) src err]\<rparr>"
    by (simp add: collectStep_def)
qed

theorem extractCRDKey_succeeds_iff_witness:
  "exUnmarshal ''g/Foo from root'' = Inr (crdDoc ''g'' ''Foo'')
   \<and> APIVersion (crdDoc ''g'' ''Foo'') \<noteq> []
   \<and> TypeKind (crdDoc ''g'' ''Foo'') = ''CustomResourceDefinition''
   \<and> extractCRDKey exUnmarshal ''g/Foo from root'' = Inr keyFoo
   \<and> extractCRDKey exUnmarshal ''a ConfigMap'' = Inl NotValidCRD
   \<and> extractCRDKey exUnmarshal ''{not yaml'' = Inl (YamlError ''cannot unmarshal'')
   \<and> collectStep exUnmarshal ''root'' (freshCollector exBadDoc) (mkFile ''crds/x.yaml'' ''{not yaml'')
       = (freshCollector exBadDoc)
           \<lparr>printed := [ParseFailed ''crds/x.yaml'' ''root'' (YamlError ''cannot unmarshal'')]\<rparr>"
proof -
  have a: "exUnmarshal ''g/Foo from root'' = Inr (crdDoc ''g'' ''Foo'')"
    by (simp add: exUnmarshal_def)
  have b: "APIVersion (crdDoc ''g'' ''Foo'') \<noteq> []"
    "TypeKind (crdDoc ''g'' ''Foo'') = ''CustomResourceDefinition''"
    "keyFoo = \<lparr>Group = SpecGroup (crdDoc ''g'' ''Foo''), Kind = SpecNamesKind (crdDoc ''g'' ''Foo'')\<rparr>"
    by (simp_all add: crdDoc_def keyFoo_def)
  have c: "extractCRDKey exUnmarshal ''a ConfigMap'' = Inl NotValidCRD"
    by (simp add: extractCRDKey_def exUnmarshal_def)
  have d: "extractCRDKey exUnmarshal (Data (mkFile ''crds/x.yaml'' ''{not yaml''))
            = Inl (YamlError ''cannot unmarshal'')"
    by (simp add: extractCRDKey_def exUnmarshal_def mkFile_def)
  have e: "printed (freshCollector exBadDoc) = []" "Name (mkFile ''crds/x.yaml'' ''{not yaml'') = ''crds/x.yaml''"
    "Data (mkFile ''crds/x.yaml'' ''{not yaml'') = ''{not yaml''"
    by (simp_all add: freshCollector_def mkFile_def)
  from extractCRDKey_succeeds_iff
         [of exUnmarshal "''g/Foo from root''" keyFoo "YamlError ''cannot unmarshal''"
             "mkFile ''crds/x.yaml'' ''{not yaml''" "''root''" "freshCollector exBadDoc"]
  have k: "extractCRDKey exUnmarshal ''g/Foo from root'' = Inr keyFoo"
    and w: "collectStep exUnmarshal ''root'' (freshCollector exBadDoc) (mkFile ''crds/x.yaml'' ''{not yaml'')
       = (freshCollector exBadDoc)
           \<lparr>printed := [ParseFailed ''crds/x.yaml'' ''root'' (YamlError ''cannot unmarshal'')]\<rparr>"
    using a b d e by auto
  from a b c d e k w show ?thesis by simp
qed

section \<open>Properties of the doc.yaml rewrite\<close>

lemma snf_two: "SetNestedField m v [k, l] =
   (case map_of m k of
      None \<Rightarrow> Inr (AList.update k (JObject [(l, v)]) m)
    | Some (JObject sub) \<Rightarrow> Inr (AList.update k (JObject (AList.update l v sub)) m)
    | Some _ \<Rightarrow> Inl (NotAMap [k]))"
  by (simp add: SetNestedField_def split: option.splits json.splits)

lemma snf_fail: "map_of m k = Some x \<Longrightarrow> \<forall>sub. x \<noteq> JObject sub \<Longrightarrow> SetNestedField m v [k, l] = Inl (NotAMap [k])"
  by (cases x) (simp_all add: snf_two)

lemma snf_other: "SetNestedField m v [k, l] = Inr m' \<Longrightarrow> k' \<noteq> k \<Longrightarrow> map_of m' k' = map_of m k'"
  by (auto simp: snf_two update_conv' split: option.splits json.splits)

lemma snf_res: "SetNestedField m v [k, l] = Inl e \<Longrightarrow> e = NotAMap [k]"
  by (auto simp: snf_two split: option.splits json.splits)

lemma modifyDocYaml_NotAMap:
  assumes u: "unmarshalMap data = Inr (Some content)"
    and k: "key \<in> {''project'', ''chart'', ''release''}"
    and x: "map_of content key = Some x" "\<forall>sub. x \<noteq> JObject sub"
  shows "\<exists>path. modifyDocYaml unmarshalMap marshal data n = Inl (NotAMap path)"
proof -
  let ?v = "JString n"
  show ?thesis
  proof (cases "SetNestedField content ?v [''project'', ''name'']")
    case (Inl e)
    with snf_res[OF Inl] u show ?thesis by (simp add: modifyDocYaml_def)
  next
    case c1: (Inr c1)
    have kp: "key \<noteq> ''project''"
    proof
      assume "key = ''project''"
      with snf_fail[OF x, of ?v "''name''"] c1 show False by simp
    qed
    have "map_of c1 ''project'' \<noteq> None" using c1
      by (auto simp: snf_two update_conv' split: option.splits json.splits)
    have x1: "map_of c1 key = Some x" using snf_other[OF c1 kp] x by simp
    show ?thesis
    proof (cases "SetNestedField c1 ?v [''project'', ''shortName'']")
      case (Inl e)
      with snf_res[OF Inl] u c1 show ?thesis by (simp add: modifyDocYaml_def)
    next
      case c2: (Inr c2)
      have x2: "map_of c2 key = Some x" using snf_other[OF c2 kp] x1 by simp
      show ?thesis
      proof (cases "SetNestedField c2 ?v [''chart'', ''name'']")
        case (Inl e)
        with snf_res[OF Inl] u c1 c2 show ?thesis by (simp add: modifyDocYaml_def)
      next
        case c3: (Inr c3)
        have kc: "key \<noteq> ''chart''"
        proof
          assume "key = ''chart''"
          with snf_fail[OF x2(1) x(2), of ?v "''name''"] c3 show False by simp
        qed
        have x3: "map_of c3 key = Some x" using snf_other[OF c3 kc] x2 by simp
        from k kp kc have kr: "key = ''release''" by simp
        from snf_fail[OF x3 x(2), of ?v "''name''"] kr
        have "SetNestedField c3 ?v [''release'', ''name''] = Inl (NotAMap [''release''])" by simp
        with u c1 c2 c3 show ?thesis by (simp add: modifyDocYaml_def)
      qed
    qed
  qed
qed

lemma rewriteDocYaml_keeps_unparsed:
  "find (\<lambda>f. Name f = ''doc.yaml'') fs = Some f \<Longrightarrow> unmarshalMap (Data f) = Inl e \<Longrightarrow>
     rewriteDocYaml unmarshalMap marshal n fs = Inr ([ModifyDocFailed (YamlError e)], fs)"
  by (induction fs) (auto simp: modifyDocYaml_def split: if_splits)

text \<open>
  C9 (a non-map value in the way). When the decoded document holds, at one of the keys
  \<^verbatim>\<open>project\<close>, \<^verbatim>\<open>chart\<close> or \<^verbatim>\<open>release\<close>, a value that is not a map, the rewrite
  returns the error of \<^verbatim>\<open>SetNestedField\<close> although the document decoded. The level is
  created when the key is absent, and entered when it holds a map.
\<close>

theorem modifyDocYaml_fails_on_non_map:
  "(unmarshalMap data = Inr (Some content) \<longrightarrow> key \<in> {''project'', ''chart'', ''release''}
      \<longrightarrow> map_of content key = Some x \<longrightarrow> (\<forall>sub. x \<noteq> JObject sub)
      \<longrightarrow> (\<exists>path. modifyDocYaml unmarshalMap marshal data n = Inl (NotAMap path)))
   \<and> (map_of m k = None \<longrightarrow>
        SetNestedField m v [k, l] = Inr (AList.update k (JObject [(l, v)]) m))
   \<and> (map_of m k = Some (JObject sub) \<longrightarrow>
        SetNestedField m v [k, l] = Inr (AList.update k (JObject (AList.update l v sub)) m))"
  using modifyDocYaml_NotAMap [of unmarshalMap data content key x marshal n]
  by (simp add: snf_two)

theorem modifyDocYaml_fails_on_non_map_witness:
  "exUnmarshalMap ''project: hello'' = Inr (Some [(''project'', JString ''hello'')])
   \<and> map_of [(''project'', JString ''hello'')] ''project'' = Some (JString ''hello'')
   \<and> (\<forall>sub. JString ''hello'' \<noteq> JObject sub)
   \<and> (\<exists>path. modifyDocYaml exUnmarshalMap exMarshal ''project: hello'' ''root-certified''
                = Inl (NotAMap path))
   \<and> map_of [(''chart'', JObject [(''version'', JNumber ''1'')])] ''project'' = None
   \<and> SetNestedField [(''chart'', JObject [(''version'', JNumber ''1'')])] (JString ''n'')
         [''project'', ''name'']
       = Inr [(''chart'', JObject [(''version'', JNumber ''1'')]),
              (''project'', JObject [(''name'', JString ''n'')])]
   \<and> SetNestedField [(''chart'', JObject [(''version'', JNumber ''1'')])] (JString ''n'')
         [''chart'', ''name'']
       = Inr [(''chart'', JObject [(''version'', JNumber ''1''), (''name'', JString ''n'')])]"
proof -
  have a: "exUnmarshalMap ''project: hello'' = Inr (Some [(''project'', JString ''hello'')])"
    by (simp add: exUnmarshalMap_def)
  from modifyDocYaml_fails_on_non_map
         [where unmarshalMap = exUnmarshalMap and data = "''project: hello''"
            and content = "[(''project'', JString ''hello'')]" and key = "''project''"
            and x = "JString ''hello''" and marshal = exMarshal and n = "''root-certified''"
            and m = "[(''chart'', JObject [(''version'', JNumber ''1'')])]" and k = "''project''"
            and v = "JString ''n''" and l = "''name''"]
  have b: "\<exists>path. modifyDocYaml exUnmarshalMap exMarshal ''project: hello'' ''root-certified''
                = Inl (NotAMap path)"
    and c: "SetNestedField [(''chart'', JObject [(''version'', JNumber ''1'')])] (JString ''n'')
         [''project'', ''name'']
       = Inr [(''chart'', JObject [(''version'', JNumber ''1'')]),
              (''project'', JObject [(''name'', JString ''n'')])]"
    using a by simp_all
  from modifyDocYaml_fails_on_non_map
         [where m = "[(''chart'', JObject [(''version'', JNumber ''1'')])]" and k = "''chart''"
            and sub = "[(''version'', JNumber ''1'')]" and v = "JString ''n''" and l = "''name''"]
  have d: "SetNestedField [(''chart'', JObject [(''version'', JNumber ''1'')])] (JString ''n'')
         [''chart'', ''name'']
       = Inr [(''chart'', JObject [(''version'', JNumber ''1''), (''name'', JString ''n'')])]"
    by simp
  from a b c d show ?thesis by simp
qed

section \<open>The two commands on a doc.yaml that cannot be decoded\<close>

lemma crdOnly_exBadDoc: "crdOnly exUnmarshal isCRDFile exUnmarshalMap exMarshal True exBadDoc =
   Inr ([ModifyDocFailed (YamlError ''cannot unmarshal'')],
        \<lparr>newMetadata = (mkMeta ''root'')\<lparr>MetaName := ''root-certified-crds'',
             Description := ''Chart containing only CRDs from root chart'', Version := ''1.2.3''\<rparr>,
         crdFiles = Map.empty, extraFiles = [mkFile ''README.md'' ''readme'']\<rparr>)"
  by (simp add: crdOnly_def exBadDoc_def collectAll_def collectCRDs_def freshCollector_def
      collectExtraFiles_def filesToCopy_def copyNamedFile_def modifyDocYaml_def exUnmarshalMap_def
      mkFile_def mkMeta_def chartName_def renameChart_def TrimPrefix_v_def HasPrefix_def isCRDFile_def)

lemma crdLess_exBadDoc: "crdLess exUnmarshalMap exMarshal exBadDoc =
   Inr ([ModifyDocFailed (YamlError ''cannot unmarshal'')],
        Chart (Raw exBadDoc) (Some ((mkMeta ''root'')\<lparr>MetaName := ''root-certified''\<rparr>)) []
          [mkFile ''doc.yaml'' ''{not yaml'', mkFile ''README.md'' ''readme''] [])"
  by (simp add: crdLess_def exBadDoc_def modifyDocYaml_def exUnmarshalMap_def
      mkFile_def mkMeta_def)

text \<open>
  C7 (a failed rewrite in both commands), evaluated on \<open>exBadDoc\<close>. Both commands print
  the warning. The crd-less command saves \<^verbatim>\<open>doc.yaml\<close> with its original bytes; the
  crd-only command appends nothing for it, and the saved chart holds no \<^verbatim>\<open>doc.yaml\<close>.
\<close>

theorem crdOnly_drops_unparsed_doc:
  "(case crdLess exUnmarshalMap exMarshal exBadDoc of
      Inl err \<Rightarrow> False
    | Inr (ws, c) \<Rightarrow>
        ws = [ModifyDocFailed (YamlError ''cannot unmarshal'')]
        \<and> mkFile ''doc.yaml'' ''{not yaml'' \<in> set (Files c))
   \<and> (case crdOnly exUnmarshal isCRDFile exUnmarshalMap exMarshal True exBadDoc of
      Inl err \<Rightarrow> False
    | Inr (ws, c) \<Rightarrow>
        ws = [ModifyDocFailed (YamlError ''cannot unmarshal'')]
        \<and> savedFiles c = {mkFile ''README.md'' ''readme''}
        \<and> mkFile ''doc.yaml'' ''{not yaml'' \<notin> savedFiles c)"
  by (simp add: crdOnly_exBadDoc crdLess_exBadDoc savedFiles_def mkFile_def)

end
